theory Spec2Isabelle
  imports Complex_Main
begin

section \<open>The scoring function of \<open>validation_dashboard.py\<close>\<close>

text \<open>
  \<open>score_patient(row)\<close> receives one row of the cohort table as a pandas Series: a
  mapping from column names to numbers. \<open>DataFrame.apply(..., axis=1)\<close> over a table
  that mixes integer and float columns hands every value over as a float, so a row is
  modelled as a partial map from column names to \<open>real\<close>; binary64 rounding is not
  modelled (the scores are sums of small integers, which binary64 holds exactly).
  Reading an attribute that the row does not have raises \<open>AttributeError\<close>.
\<close>

datatype error = AttributeError string

type_synonym series = "string \<rightharpoonup> real"

definition getattr :: "series \<Rightarrow> string \<Rightarrow> error + real" where
  "getattr row name = (case row name of None \<Rightarrow> Inl (AttributeError name) | Some v \<Rightarrow> Inr v)"

text \<open>
  Every statement of the body has the shape \<open>score += e(row.F)\<close>: it reads one field
  and adds an expression of that field to the running score. A statement is the pair of
  the field name and the expression; \<open>exec\<close> runs a block of statements in order and
  stops at the first one that raises.
\<close>

type_synonym stmt = "string \<times> (real \<Rightarrow> real)"

definition add_assign :: "series \<Rightarrow> stmt \<Rightarrow> real \<Rightarrow> error + real" where
  "add_assign row st score =
     (case getattr row (fst st) of Inl err \<Rightarrow> Inl err | Inr v \<Rightarrow> Inr (score + snd st v))"

fun exec :: "series \<Rightarrow> stmt list \<Rightarrow> real \<Rightarrow> error + real" where
  "exec row [] score = Inr score"
| "exec row (st # rest) score =
     (case add_assign row st score of Inl err \<Rightarrow> Inl err | Inr score' \<Rightarrow> exec row rest score')"

text \<open>The body of \<open>score_patient\<close>, lines 83 to 116, statement by statement.\<close>

definition score_body :: "stmt list" where
  "score_body =
    [(''Gender_Female'', \<lambda>v. v * 1),
     (''Non_Smoker'', \<lambda>v. v * 1),
     (''History_PONV_or_MS'', \<lambda>v. v * 2),
     (''Age_Less_50'', \<lambda>v. v * 1),
     (''Anxiety'', \<lambda>v. v * 1),
     (''Migraine'', \<lambda>v. v * 1),
     (''Obese_BMI_30'', \<lambda>v. v * 1),
     (''Abdominal_Lap_Surgery'', \<lambda>v. v * 2),
     (''ENT_Neuro_Eye_Surgery'', \<lambda>v. v * 1),
     (''Gynae_Breast_Surgery'', \<lambda>v. v * 2),
     (''Surgery_gt_60min'', \<lambda>v. v * 1),
     (''BloodLoss_gt_500ml'', \<lambda>v. v * 1),
     (''Ondansetron_mg'', \<lambda>v. if v \<ge> 4 then - 2 else 0),
     (''Midazolam_mg_per_kg'', \<lambda>v. if v \<ge> 0.05 then - 2 else 0),
     (''Dexamethasone_mg'', \<lambda>v. if v \<ge> 4 then - 1 else 0),
     (''Glycopyrrolate_mg'', \<lambda>v. if v > 0.2 then 1 else 0),
     (''Nalbuphine_mg'', \<lambda>v. if v > 50 then 1 else 0),
     (''Fentanyl_mcg_per_kg'', \<lambda>v. if v > 5 then 3 else 0),
     (''Butorphanol_mg'', \<lambda>v. if v > 2 then 1 else 0),
     (''Pentazocine_mg'', \<lambda>v. if v > 100 then 3 else 0),
     (''Propofol_TIVA'', \<lambda>v. if v = 1 then - 3 else 0),
     (''Propofol_InductionOnly'', \<lambda>v. if v = 1 then - 1 else 0),
     (''Volatile_Agents_MAC'', \<lambda>v. if v > 1 then 2 else 0),
     (''Nausea_gt_30min'', \<lambda>v. v * 1),
     (''Vomiting_gt_2'', \<lambda>v. v * 2),
     (''Abdominal_Discomfort'', \<lambda>v. v * 1)]"

definition score_patient :: "series \<Rightarrow> error + real" where
  "score_patient row = exec row score_body 0"

text \<open>The fields that the body reads, in the order in which it reads them.\<close>

definition scored_fields :: "string list" where
  "scored_fields = map fst score_body"

section \<open>The cohort table\<close>

text \<open>
  A pandas DataFrame is modelled by its column names, in order, and its rows, each the
  list of the cells of that row in column order. The row handed to \<open>score_patient\<close>
  is the Series that maps each column name to the cell of that column.
\<close>

record dataframe =
  columns :: "string list"
  rows :: "real list list"

definition row_series :: "string list \<Rightarrow> real list \<Rightarrow> series" where
  "row_series cols cells = map_of (zip cols cells)"

text \<open>
  The keys of the dictionary built by \<open>generate_synthetic_data\<close>, lines 32 to 69, in
  insertion order: the column order of \<open>raw_data\<close>.
\<close>

definition data_columns :: "string list" where
  "data_columns =
    [''Gender_Female'', ''Non_Smoker'', ''History_PONV_or_MS'', ''Age_Less_50'', ''Anxiety'',
     ''Migraine'', ''Obese_BMI_30'',
     ''Abdominal_Lap_Surgery'', ''ENT_Neuro_Eye_Surgery'', ''Gynae_Breast_Surgery'',
     ''Surgery_gt_60min'', ''BloodLoss_gt_500ml'',
     ''Ondansetron_mg'', ''Midazolam_mg_per_kg'', ''Dexamethasone_mg'', ''Glycopyrrolate_mg'',
     ''Nalbuphine_mg'', ''Fentanyl_mcg_per_kg'', ''Butorphanol_mg'', ''Pentazocine_mg'',
     ''Propofol_TIVA'', ''Propofol_InductionOnly'', ''Volatile_Agents_MAC'',
     ''Succinylcholine'', ''Atracurium'', ''Cisatracurium'', ''Vecuronium'',
     ''Nausea_gt_30min'', ''Vomiting_gt_2'', ''Abdominal_Discomfort'']"

text \<open>
  The random draws of \<open>generate_synthetic_data\<close> are a parameter: \<open>draws\<close> holds, row
  by row, the values drawn for the thirty columns.
\<close>

definition generate_synthetic_data :: "real list list \<Rightarrow> dataframe" where
  "generate_synthetic_data draws = \<lparr>columns = data_columns, rows = draws\<rparr>"

text \<open>
  \<open>df.apply(f, axis=1)\<close>: \<open>f\<close> on each row in order; the first row on which \<open>f\<close>
  raises aborts the whole call.
\<close>

fun apply_rows :: "(series \<Rightarrow> error + real) \<Rightarrow> string list \<Rightarrow> real list list \<Rightarrow> error + real list" where
  "apply_rows f cols [] = Inr []"
| "apply_rows f cols (r # rs) =
     (case f (row_series cols r) of
        Inl err \<Rightarrow> Inl err
      | Inr v \<Rightarrow> (case apply_rows f cols rs of Inl err \<Rightarrow> Inl err | Inr vs \<Rightarrow> Inr (v # vs)))"

text \<open>
  \<open>df[name] = values\<close>: a column that exists is overwritten in place, a new one is
  appended after the last column.
\<close>

definition setitem :: "dataframe \<Rightarrow> string \<Rightarrow> real list \<Rightarrow> dataframe" where
  "setitem df name vals =
     (if name \<in> set (columns df)
      then df\<lparr>rows := map2 (\<lambda>r v. r[length (takeWhile (\<lambda>c. c \<noteq> name) (columns df)) := v]) (rows df) vals\<rparr>
      else df\<lparr>columns := columns df @ [name], rows := map2 (\<lambda>r v. r @ [v]) (rows df) vals\<rparr>)"

text \<open>Line 120: \<open>raw_data["Hybrid_PONV_Score"] = raw_data.apply(score_patient, axis=1)\<close>.\<close>

definition score_cohort :: "dataframe \<Rightarrow> error + dataframe" where
  "score_cohort raw_data =
     (case apply_rows score_patient (columns raw_data) (rows raw_data) of
        Inl err \<Rightarrow> Inl err
      | Inr scores \<Rightarrow> Inr (setitem raw_data ''Hybrid_PONV_Score'' scores))"

text \<open>
  \<open>convert_df(df)\<close> is \<open>df.to_csv(index=False).encode("utf-8")\<close>: a header line of the
  column names, then one line per row, cells separated by commas, no index column. How
  pandas prints a number is the parameter \<open>fmt\<close> (it depends on the column's dtype, so it
  receives the column name). All column names are ASCII, so the encoding changes nothing.
\<close>

definition csv_header :: "dataframe \<Rightarrow> string list" where
  "csv_header df = columns df"

definition csv_records :: "(string \<Rightarrow> real \<Rightarrow> string) \<Rightarrow> dataframe \<Rightarrow> string list list" where
  "csv_records fmt df = csv_header df # map (\<lambda>r. map2 fmt (columns df) r) (rows df)"

fun join :: "string \<Rightarrow> string list \<Rightarrow> string" where
  "join sep [] = []"
| "join sep [x] = x"
| "join sep (x # y # ys) = x @ sep @ join sep (y # ys)"

definition convert_df :: "(string \<Rightarrow> real \<Rightarrow> string) \<Rightarrow> dataframe \<Rightarrow> string" where
  "convert_df fmt df = concat (map (\<lambda>cells. join '','' cells @ [CHR 0x0A]) (csv_records fmt df))"

section \<open>The rule table of the specification\<close>

text \<open>
  The specification describes the score as a table of weighted rules: a binary rule
  contributes its weight times the field's value, a threshold rule contributes its weight
  when the field's value compares against the threshold as the rule says. The definitions
  of this section follow the specification's tables and words, for comparison with
  \<open>score_patient\<close>, which follows the source.
\<close>

datatype comparator = GE | GT

datatype rule = BinaryRule string real | ThresholdRule string comparator real real

fun holds :: "comparator \<Rightarrow> real \<Rightarrow> real \<Rightarrow> bool" where
  "holds GE v t = (v \<ge> t)"
| "holds GT v t = (v > t)"

fun rule_field :: "rule \<Rightarrow> string" where
  "rule_field (BinaryRule f w) = f"
| "rule_field (ThresholdRule f c t w) = f"

fun rule_weight :: "rule \<Rightarrow> real" where
  "rule_weight (BinaryRule f w) = w"
| "rule_weight (ThresholdRule f c t w) = w"

text \<open>What a rule contributes for a field value \<open>v\<close>, and whether \<open>v\<close> meets its condition.\<close>

fun rule_value :: "rule \<Rightarrow> real \<Rightarrow> real" where
  "rule_value (BinaryRule f w) v = w * v"
| "rule_value (ThresholdRule f c t w) v = (if holds c v t then w else 0)"

fun rule_fires :: "rule \<Rightarrow> real \<Rightarrow> bool" where
  "rule_fires (BinaryRule f w) v = (v = 1)"
| "rule_fires (ThresholdRule f c t w) v = holds c v t"

definition contribution :: "series \<Rightarrow> rule \<Rightarrow> real" where
  "contribution row r = rule_value r (the (row (rule_field r)))"

text \<open>The table of section 4.1 of the specification, row by row.\<close>

definition rule_table :: "rule list" where
  "rule_table =
    [BinaryRule ''Gender_Female'' 1,
     BinaryRule ''Non_Smoker'' 1,
     BinaryRule ''History_PONV_or_MS'' 2,
     BinaryRule ''Age_Less_50'' 1,
     BinaryRule ''Anxiety'' 1,
     BinaryRule ''Migraine'' 1,
     BinaryRule ''Obese_BMI_30'' 1,
     BinaryRule ''Abdominal_Lap_Surgery'' 2,
     BinaryRule ''ENT_Neuro_Eye_Surgery'' 1,
     BinaryRule ''Gynae_Breast_Surgery'' 2,
     BinaryRule ''Surgery_gt_60min'' 1,
     BinaryRule ''BloodLoss_gt_500ml'' 1,
     ThresholdRule ''Ondansetron_mg'' GE 4 (- 2),
     ThresholdRule ''Midazolam_mg_per_kg'' GE 0.05 (- 2),
     ThresholdRule ''Dexamethasone_mg'' GE 4 (- 1),
     ThresholdRule ''Glycopyrrolate_mg'' GT 0.2 1,
     ThresholdRule ''Nalbuphine_mg'' GT 50 1,
     ThresholdRule ''Fentanyl_mcg_per_kg'' GT 5 3,
     ThresholdRule ''Butorphanol_mg'' GT 2 1,
     ThresholdRule ''Pentazocine_mg'' GT 100 3,
     BinaryRule ''Propofol_TIVA'' (- 3),
     BinaryRule ''Propofol_InductionOnly'' (- 1),
     ThresholdRule ''Volatile_Agents_MAC'' GT 1 2,
     BinaryRule ''Nausea_gt_30min'' 1,
     BinaryRule ''Vomiting_gt_2'' 2,
     BinaryRule ''Abdominal_Discomfort'' 1]"

definition table_score :: "series \<Rightarrow> real" where
  "table_score row = sum_list (map (contribution row) rule_table)"

text \<open>
  The fields of section 3 of the specification in the order in which it declares them:
  the patient-specific factors, the surgical factors, the nine continuous doses followed
  by the two Propofol flags, the muscle relaxants, the postoperative symptoms.
\<close>

definition muscle_relaxants :: "string list" where
  "muscle_relaxants = [''Succinylcholine'', ''Atracurium'', ''Cisatracurium'', ''Vecuronium'']"

definition dose_fields :: "string list" where
  "dose_fields =
    [''Ondansetron_mg'', ''Midazolam_mg_per_kg'', ''Dexamethasone_mg'', ''Glycopyrrolate_mg'',
     ''Nalbuphine_mg'', ''Fentanyl_mcg_per_kg'', ''Butorphanol_mg'', ''Pentazocine_mg'',
     ''Volatile_Agents_MAC'']"

definition binary_fields :: "string list" where
  "binary_fields =
    [''Gender_Female'', ''Non_Smoker'', ''History_PONV_or_MS'', ''Age_Less_50'', ''Anxiety'',
     ''Migraine'', ''Obese_BMI_30'',
     ''Abdominal_Lap_Surgery'', ''ENT_Neuro_Eye_Surgery'', ''Gynae_Breast_Surgery'',
     ''Surgery_gt_60min'', ''BloodLoss_gt_500ml'',
     ''Propofol_TIVA'', ''Propofol_InductionOnly''] @ muscle_relaxants @
    [''Nausea_gt_30min'', ''Vomiting_gt_2'', ''Abdominal_Discomfort'']"

definition declaration_order :: "string list" where
  "declaration_order =
    [''Gender_Female'', ''Non_Smoker'', ''History_PONV_or_MS'', ''Age_Less_50'', ''Anxiety'',
     ''Migraine'', ''Obese_BMI_30'',
     ''Abdominal_Lap_Surgery'', ''ENT_Neuro_Eye_Surgery'', ''Gynae_Breast_Surgery'',
     ''Surgery_gt_60min'', ''BloodLoss_gt_500ml''] @ dose_fields @
    [''Propofol_TIVA'', ''Propofol_InductionOnly''] @ muscle_relaxants @
    [''Nausea_gt_30min'', ''Vomiting_gt_2'', ''Abdominal_Discomfort'']"

text \<open>
  The invariant of section 3: every binary field is present with value 0 or 1, every dose
  field is present with a value that is not negative.
\<close>

definition valid_record :: "series \<Rightarrow> bool" where
  "valid_record row \<longleftrightarrow>
     list_all (\<lambda>f. row f = Some 0 \<or> row f = Some 1) binary_fields \<and>
     list_all (\<lambda>f. case row f of None \<Rightarrow> False | Some v \<Rightarrow> 0 \<le> v) dose_fields"

text \<open>
  The Propofol flags are the binary rules of the table whose statement in the source
  tests the field for equality with 1 instead of multiplying by it.
\<close>

fun propofol_flag :: "rule \<Rightarrow> bool" where
  "propofol_flag (BinaryRule f w) = (f = ''Propofol_TIVA'' \<or> f = ''Propofol_InductionOnly'')"
| "propofol_flag (ThresholdRule f c t w) = False"

section \<open>Test inputs and auxiliary notions\<close>

text \<open>
  The baseline record of the specification's tests: every column of the table present
  with value 0. \<open>all_on\<close> is one record with every binary field 1 and every dose at a
  value that meets its rule's condition.
\<close>

definition baseline :: series where
  "baseline = row_series data_columns (replicate (length data_columns) 0)"

definition all_on :: series where
  "all_on = row_series data_columns
     [1, 1, 1, 1, 1, 1, 1,
      1, 1, 1, 1, 1,
      4, 0.05, 4, 0.3, 51, 6, 3, 101, 1, 1, 1.5,
      1, 1, 1, 1,
      1, 1, 1]"

text \<open>A cohort of one record, the baseline, and the table that scoring it returns.\<close>

definition zero_cohort :: dataframe where
  "zero_cohort = generate_synthetic_data [replicate 30 0]"

definition zero_cohort_scored :: dataframe where
  "zero_cohort_scored =
     \<lparr>columns = data_columns @ [''Hybrid_PONV_Score''], rows = [replicate 30 0 @ [0]]\<rparr>"

text \<open>
  What the other statements of the body add up to: the body without the statements that
  read field \<open>f\<close>, run from score 0.
\<close>

definition rest_score :: "string \<Rightarrow> series \<Rightarrow> error + real" where
  "rest_score f row = exec row (filter (\<lambda>st. fst st \<noteq> f) score_body) 0"

text \<open>A table is rectangular when every row has one cell per column.\<close>

definition rectangular :: "dataframe \<Rightarrow> bool" where
  "rectangular df \<longleftrightarrow> list_all (\<lambda>r. length r = length (columns df)) (rows df)"

section \<open>Properties of the scoring function\<close>

subsection \<open>Running a block of statements\<close>

lemma exec_find:
  "exec row ss s =
     (case find (\<lambda>st. row (fst st) = None) ss of
        Some st \<Rightarrow> Inl (AttributeError (fst st))
      | None \<Rightarrow> Inr (s + sum_list (map (\<lambda>st. snd st (the (row (fst st)))) ss)))"
  by (induction ss arbitrary: s) (auto simp: add_assign_def getattr_def split: option.splits)

lemma exec_shift:
  "exec row ss (s + c) = (case exec row ss s of Inl err \<Rightarrow> Inl err | Inr b \<Rightarrow> Inr (b + c))"
  by (simp add: exec_find split: option.splits)

lemma exec_present:
  assumes "\<forall>st \<in> set ss. row (fst st) \<noteq> None"
  shows "exec row ss s = Inr (s + sum_list (map (\<lambda>st. snd st (the (row (fst st)))) ss))"
proof -
  from assms have "find (\<lambda>st. row (fst st) = None) ss = None"
    by (auto simp: find_None_iff)
  then show ?thesis by (simp add: exec_find)
qed

lemma exec_cong_fields:
  "\<forall>st \<in> set ss. r1 (fst st) = r2 (fst st) \<Longrightarrow> exec r1 ss s = exec r2 ss s"
  by (induction ss arbitrary: s) (auto simp: add_assign_def getattr_def split: option.splits sum.splits)

lemma exec_update:
  "exec (row(f \<mapsto> v)) ss s =
     (case exec row (filter (\<lambda>st. fst st \<noteq> f) ss) s of
        Inl err \<Rightarrow> Inl err
      | Inr b \<Rightarrow> Inr (b + sum_list (map (\<lambda>st. snd st v) (filter (\<lambda>st. fst st = f) ss))))"
proof (induction ss arbitrary: s)
  case Nil
  then show ?case by simp
next
  case (Cons st ss)
  show ?case
  proof (cases "fst st = f")
    case True
    then show ?thesis
      using Cons.IH [of "s + snd st v"]
      by (simp add: add_assign_def getattr_def exec_shift [of row _ s "snd st v"] add.assoc add.commute
               split: sum.splits)
  next
    case False
    then show ?thesis
      using Cons.IH
      by (simp add: add_assign_def getattr_def split: option.splits sum.splits)
  qed
qed

lemma filter_single:
  "distinct (map fst ss) \<Longrightarrow> (f, e) \<in> set ss \<Longrightarrow> filter (\<lambda>st. fst st = f) ss = [(f, e)]"
proof (induction ss)
  case Nil
  then show ?case by simp
next
  case (Cons st ss)
  then show ?case
    by (cases "fst st = f") (auto simp: filter_empty_conv image_iff intro: rev_image_eqI)
qed

lemma distinct_scored_fields: "distinct (map fst score_body)"
  unfolding score_body_def by simp

lemma score_patient_find:
  "score_patient row =
     (case find (\<lambda>f. row f = None) scored_fields of
        Some f \<Rightarrow> Inl (AttributeError f)
      | None \<Rightarrow> Inr (sum_list (map (\<lambda>st. snd st (the (row (fst st)))) score_body)))"
proof -
  have "find (\<lambda>f. row f = None) (map fst ss) = map_option fst (find (\<lambda>st. row (fst st) = None) ss)"
    for ss :: "stmt list"
    by (induction ss) auto
  then show ?thesis
    by (simp add: score_patient_def scored_fields_def exec_find split: option.splits)
qed

lemma score_patient_present:
  assumes "\<forall>f \<in> set scored_fields. row f \<noteq> None"
  shows "score_patient row = Inr (sum_list (map (\<lambda>st. snd st (the (row (fst st)))) score_body))"
  using assms exec_present [of score_body row 0]
  by (simp add: score_patient_def scored_fields_def)

lemma score_patient_update:
  assumes "(f, e) \<in> set score_body"
  shows "score_patient (row(f \<mapsto> v)) =
           (case rest_score f row of Inl err \<Rightarrow> Inl err | Inr b \<Rightarrow> Inr (b + e v))"
  using filter_single [OF distinct_scored_fields assms]
  by (simp add: score_patient_def rest_score_def exec_update split: sum.splits)

subsection \<open>The body against the rule table\<close>

lemma table_fields: "map rule_field rule_table = scored_fields"
  by (simp add: rule_table_def scored_fields_def score_body_def)

lemma body_implements_table:
  "list_all2 (\<lambda>r st. fst st = rule_field r \<and>
       (\<forall>v. snd st v = (if propofol_flag r then (if v = 1 then rule_weight r else 0) else rule_value r v)))
     rule_table score_body"
  by (simp add: rule_table_def score_body_def)

lemma rule_fires_value: "rule_fires r v \<Longrightarrow> rule_value r v = rule_weight r"
  by (cases r) auto

lemma rule_value_bounds:
  assumes "rule_fires r v \<or> rule_value r v = 0"
  shows "min 0 (rule_weight r) \<le> rule_value r v \<and> rule_value r v \<le> max 0 (rule_weight r)"
  using assms rule_fires_value [of r v] by auto


subsection \<open>Valid records\<close>

lemma valid_binary:
  "valid_record row \<Longrightarrow> f \<in> set binary_fields \<Longrightarrow> row f = Some 0 \<or> row f = Some 1"
  by (simp add: valid_record_def list_all_iff)

lemma valid_dose:
  "valid_record row \<Longrightarrow> f \<in> set dose_fields \<Longrightarrow> \<exists>v. row f = Some v \<and> 0 \<le> v"
  by (auto simp: valid_record_def list_all_iff split: option.splits)

lemma table_rule_kinds:
  "list_all (\<lambda>r. case r of BinaryRule f w \<Rightarrow> f \<in> set binary_fields
                       | ThresholdRule f c t w \<Rightarrow> f \<in> set dose_fields) rule_table"
  by (simp add: rule_table_def binary_fields_def dose_fields_def muscle_relaxants_def)

lemma valid_present:
  assumes "valid_record row" and "f \<in> set scored_fields"
  shows "row f \<noteq> None"
proof -
  from assms(2) obtain r where r: "r \<in> set rule_table" "f = rule_field r"
    unfolding table_fields [symmetric] by auto
  from r(1) table_rule_kinds
  have "case r of BinaryRule f w \<Rightarrow> f \<in> set binary_fields
                | ThresholdRule f c t w \<Rightarrow> f \<in> set dose_fields"
    by (simp add: list_all_iff)
  with r(2) assms(1) show ?thesis
    by (cases r) (auto dest: valid_binary valid_dose)
qed

lemma valid_rule_value:
  assumes "valid_record row" and "r \<in> set rule_table"
  shows "rule_fires r (the (row (rule_field r))) \<or> rule_value r (the (row (rule_field r))) = 0"
proof -
  from assms(2) table_rule_kinds
  have "case r of BinaryRule f w \<Rightarrow> f \<in> set binary_fields
                | ThresholdRule f c t w \<Rightarrow> f \<in> set dose_fields"
    by (simp add: list_all_iff)
  with assms(1) show ?thesis
    by (cases r) (auto dest: valid_binary)
qed

lemma score_patient_table_valid:
  assumes "valid_record row"
  shows "score_patient row = Inr (table_score row)"
proof -
  have present: "\<forall>f \<in> set scored_fields. row f \<noteq> None"
    using assms valid_present by blast
  have len: "length rule_table = length score_body"
    using body_implements_table by (rule list_all2_lengthD)
  have "contribution row (rule_table ! i) = snd (score_body ! i) (the (row (fst (score_body ! i))))"
    if i: "i < length rule_table" for i
  proof -
    define r st where "r = rule_table ! i" and "st = score_body ! i"
    have mem: "r \<in> set rule_table"
      using i by (simp add: r_def)
    have rel: "fst st = rule_field r \<and>
         (\<forall>v. snd st v = (if propofol_flag r then (if v = 1 then rule_weight r else 0) else rule_value r v))"
      using body_implements_table i unfolding r_def st_def by (rule list_all2_nthD)
    have "contribution row r = snd st (the (row (fst st)))"
    proof (cases "propofol_flag r")
      case False
      with rel show ?thesis by (simp add: contribution_def)
    next
      case True
      then obtain f w where r: "r = BinaryRule f w" by (cases r) auto
      from valid_rule_value [OF assms mem] rel True r
      show ?thesis by (auto simp: contribution_def)
    qed
    then show ?thesis by (simp add: r_def st_def)
  qed
  with len
  have "map (contribution row) rule_table = map (\<lambda>st. snd st (the (row (fst st)))) score_body"
    by (simp add: list_eq_iff_nth_eq)
  with score_patient_present [OF present] show ?thesis
    by (simp add: table_score_def)
qed

subsection \<open>The baseline record\<close>

lemma row_series_replicate:
  "f \<in> set cols \<Longrightarrow> row_series cols (replicate (length cols) c) f = Some c"
  unfolding row_series_def by (induction cols) auto

lemma baseline_lookup: "f \<in> set data_columns \<Longrightarrow> baseline f = Some 0"
  unfolding baseline_def by (rule row_series_replicate)

lemma scored_fields_columns: "set scored_fields \<subseteq> set data_columns"
  by (simp add: scored_fields_def score_body_def data_columns_def)

lemma body_zero: "\<forall>st \<in> set score_body. snd st 0 = 0"
  by (simp add: score_body_def)

lemma exec_zero:
  assumes "\<forall>st \<in> set ss. row (fst st) = Some 0 \<and> snd st 0 = 0"
  shows "exec row ss 0 = Inr 0"
proof -
  from assms have "\<forall>st \<in> set ss. row (fst st) \<noteq> None" by auto
  from exec_present [OF this, of 0] assms show ?thesis
    by (simp cong: map_cong)
qed

lemma score_patient_zero:
  assumes "\<forall>f \<in> set scored_fields. row f = Some 0"
  shows "score_patient row = Inr 0"
  unfolding score_patient_def
  using assms body_zero by (intro exec_zero) (auto simp: scored_fields_def)

lemma rest_score_zero:
  assumes "\<forall>f \<in> set scored_fields. row f = Some 0"
  shows "rest_score g row = Inr 0"
  unfolding rest_score_def
  using assms body_zero by (intro exec_zero) (auto simp: scored_fields_def)

lemma baseline_zero: "\<forall>f \<in> set scored_fields. baseline f = Some 0"
  using scored_fields_columns baseline_lookup by blast

lemma table_statement:
  assumes "r \<in> set rule_table"
  shows "\<exists>e. (rule_field r, e) \<in> set score_body \<and>
    (\<forall>v. e v = (if propofol_flag r then (if v = 1 then rule_weight r else 0) else rule_value r v))"
proof -
  from assms obtain i where i: "i < length rule_table" "r = rule_table ! i"
    by (auto simp: in_set_conv_nth)
  have len: "length rule_table = length score_body"
    using body_implements_table by (rule list_all2_lengthD)
  have rel: "fst (score_body ! i) = rule_field r \<and>
       (\<forall>v. snd (score_body ! i) v =
          (if propofol_flag r then (if v = 1 then rule_weight r else 0) else rule_value r v))"
    using body_implements_table i(1) unfolding i(2) by (rule list_all2_nthD)
  have "(rule_field r, snd (score_body ! i)) \<in> set score_body"
    using i(1) len rel by (metis nth_mem prod.collapse)
  with rel show ?thesis by blast
qed

lemma isolated_statement:
  assumes "(f, e) \<in> set score_body"
  shows "score_patient (baseline(f \<mapsto> v)) = Inr (e v)"
  using score_patient_update [OF assms, of baseline v] rest_score_zero [OF baseline_zero, of f]
  by simp

subsection \<open>Scoring a table\<close>

lemma apply_rows_iff:
  "apply_rows f cols rs = Inr vs \<longleftrightarrow> map (\<lambda>r. f (row_series cols r)) rs = map Inr vs"
proof (induction rs arbitrary: vs)
  case Nil
  then show ?case by auto
next
  case (Cons r rs)
  show ?case
  proof (cases "f (row_series cols r)")
    case (Inl err)
    then show ?thesis by (cases vs) auto
  next
    case head: (Inr v)
    show ?thesis
    proof (cases "apply_rows f cols rs")
      case (Inl err)
      with Cons.IH have "map (\<lambda>r. f (row_series cols r)) rs \<noteq> map Inr ws" for ws
        by (metis sum.distinct(1))
      with head Inl show ?thesis by (cases vs) auto
    next
      case (Inr ws)
      with Cons.IH [of ws] have "map (\<lambda>r. f (row_series cols r)) rs = map Inr ws"
        by simp
      with head Inr show ?thesis by (cases vs) (auto simp: inj_map_eq_map [OF inj_Inr])
    qed
  qed
qed

lemma all_Inr_map:
  "\<forall>x \<in> set xs. \<exists>s. g x = Inr s \<Longrightarrow> \<exists>vs. map g xs = map Inr vs"
proof (induction xs)
  case Nil
  then show ?case by simp
next
  case (Cons x xs)
  then obtain s vs where "g x = Inr s" and "map g xs = map Inr vs" by auto
  then have "map g (x # xs) = map Inr (s # vs)" by simp
  then show ?case by blast
qed


lemma row_series_present:
  assumes "length cells = length cols" and "f \<in> set cols"
  shows "row_series cols cells f \<noteq> None"
proof -
  have "dom (map_of (zip cols cells)) = set cols"
    using assms(1) by simp
  with assms(2) show ?thesis
    unfolding row_series_def by blast
qed

lemma row_series_append:
  assumes "length cells = length cols" and "f \<in> set cols"
  shows "row_series (cols @ [c]) (cells @ [v]) f = row_series cols cells f"
proof -
  from row_series_present [OF assms] obtain x where "map_of (zip cols cells) f = Some x"
    unfolding row_series_def by blast
  then show ?thesis
    using assms(1) by (simp add: row_series_def map_add_def)
qed

lemma score_column_new: "''Hybrid_PONV_Score'' \<notin> set data_columns"
  by (simp add: data_columns_def)

lemma score_patient_table_row:
  assumes "length cells = length data_columns"
  shows "\<exists>s. score_patient (row_series data_columns cells) = Inr s"
proof -
  have "\<forall>f \<in> set scored_fields. row_series data_columns cells f \<noteq> None"
    using assms scored_fields_columns row_series_present by blast
  then show ?thesis
    by (simp add: score_patient_present)
qed

lemma score_cohort_table:
  assumes "columns df = data_columns" and "rectangular df"
  shows "\<exists>scores. score_cohort df = Inr (setitem df ''Hybrid_PONV_Score'' scores) \<and>
           map (\<lambda>r. score_patient (row_series data_columns r)) (rows df) = map Inr scores"
proof -
  have "\<exists>s. score_patient (row_series data_columns r) = Inr s" if "r \<in> set (rows df)" for r
  proof -
    from that assms have "length r = length data_columns"
      by (simp add: rectangular_def list_all_iff)
    then show ?thesis by (rule score_patient_table_row)
  qed
  then have "\<forall>r \<in> set (rows df). \<exists>s. score_patient (row_series data_columns r) = Inr s"
    by blast
  then have "\<exists>scores. map (\<lambda>r. score_patient (row_series data_columns r)) (rows df) = map Inr scores"
    by (rule all_Inr_map)
  then obtain scores
    where sc: "map (\<lambda>r. score_patient (row_series data_columns r)) (rows df) = map Inr scores"
    by blast
  then have "apply_rows score_patient (columns df) (rows df) = Inr scores"
    by (simp add: apply_rows_iff assms(1))
  then have "score_cohort df = Inr (setitem df ''Hybrid_PONV_Score'' scores)"
    by (simp add: score_cohort_def)
  with sc show ?thesis by blast
qed

lemma setitem_new:
  assumes "name \<notin> set (columns df)" and "length vals = length (rows df)"
  shows "columns (setitem df name vals) = columns df @ [name]"
    and "length (rows (setitem df name vals)) = length (rows df)"
    and "i < length (rows df) \<Longrightarrow> rows (setitem df name vals) ! i = rows df ! i @ [vals ! i]"
  using assms by (simp_all add: setitem_def)

lemma score_cohort_preserves_rows_aux:
  assumes "columns df = data_columns" and "rectangular df"
  shows "\<exists>out. score_cohort df = Inr out \<and>
           columns out = data_columns @ [''Hybrid_PONV_Score''] \<and>
           length (rows out) = length (rows df) \<and>
           (\<forall>i < length (rows df). \<exists>s.
               score_patient (row_series data_columns (rows df ! i)) = Inr s \<and>
               rows out ! i = rows df ! i @ [s])"
proof -
  from score_cohort_table [OF assms] obtain scores
    where out: "score_cohort df = Inr (setitem df ''Hybrid_PONV_Score'' scores)"
      and sc: "map (\<lambda>r. score_patient (row_series data_columns r)) (rows df) = map Inr scores"
    by blast
  from sc have len: "length scores = length (rows df)"
    by (metis length_map)
  have new: "''Hybrid_PONV_Score'' \<notin> set (columns df)"
    using score_column_new assms(1) by simp
  have "score_patient (row_series data_columns (rows df ! i)) = Inr (scores ! i)"
    if "i < length (rows df)" for i
    using that len sc by (metis nth_map)
  then have "\<forall>i < length (rows df). \<exists>s.
      score_patient (row_series data_columns (rows df ! i)) = Inr s \<and>
      rows (setitem df ''Hybrid_PONV_Score'' scores) ! i = rows df ! i @ [s]"
    using setitem_new(3) [OF new len] by blast
  with out setitem_new(1,2) [OF new len] assms(1) show ?thesis
    by auto
qed

subsection \<open>Facts about the test inputs\<close>

lemma valid_all_on: "valid_record all_on"
  by code_simp

lemma length_data_columns: "length data_columns = 30"
  by (simp add: data_columns_def)

lemma score_zero_cohort: "score_cohort zero_cohort = Inr zero_cohort_scored"
proof -
  have "row_series data_columns (replicate 30 0) = baseline"
    by (simp add: baseline_def length_data_columns)
  then have "score_patient (row_series data_columns (replicate 30 0)) = Inr 0"
    using score_patient_zero [OF baseline_zero] by simp
  then show ?thesis
    using score_column_new
    by (simp add: score_cohort_def zero_cohort_def zero_cohort_scored_def generate_synthetic_data_def
          setitem_def)
qed

lemma zero_cohort_table: "columns zero_cohort = data_columns" "rectangular zero_cohort"
  by (simp_all add: zero_cohort_def generate_synthetic_data_def rectangular_def length_data_columns)

section \<open>The claims\<close>

text \<open>
  Claim C1. For every valid patient record (every binary field 0 or 1, every dose field
  not negative), the score computed by the source is the sum, over every rule of the
  table of section 4.1, of that rule's contribution: weight times the value for a binary
  rule, the weight when the comparison against the threshold holds for a threshold rule.
\<close>

theorem score_patient_refines_table:
  "valid_record row \<Longrightarrow> score_patient row = Inr (table_score row)"
  by (rule score_patient_table_valid)

theorem score_patient_refines_table_witness:
  "valid_record all_on \<and> score_patient all_on = Inr (table_score all_on)"
proof -
  have h: "valid_record all_on" by (rule valid_all_on)
  show ?thesis using h score_patient_refines_table [OF h] by simp
qed

text \<open>
  Claim C2, as stated, fails: the source validates nothing. A record whose binary field
  holds 2 and whose dose is negative is scored, and so is a record without one of the
  muscle-relaxant fields.
\<close>

theorem score_patient_scores_invalid_record:
  "\<not> valid_record (baseline(''Gender_Female'' \<mapsto> 2, ''Ondansetron_mg'' \<mapsto> - 1)) \<and>
   score_patient (baseline(''Gender_Female'' \<mapsto> 2, ''Ondansetron_mg'' \<mapsto> - 1)) = Inr 2 \<and>
   (baseline(''Vecuronium'' := None)) ''Vecuronium'' = None \<and>
   score_patient (baseline(''Vecuronium'' := None)) = Inr 0"
  by code_simp

text \<open>
  Claim C2, amended. The score is returned exactly when every field that the body reads
  is present in the record, whatever the values; otherwise the call raises
  \<open>AttributeError\<close> for a field that the body reads and the record lacks.
\<close>

theorem score_patient_fails_iff_field_missing:
  "((\<exists>s. score_patient row = Inr s) \<longleftrightarrow> list_all (\<lambda>f. row f \<noteq> None) scored_fields) \<and>
   (\<forall>err. score_patient row = Inl err \<longrightarrow>
      (\<exists>f \<in> set scored_fields. row f = None \<and> err = AttributeError f))"
  by (auto simp: score_patient_find list_all_iff find_None_iff find_Some_iff split: option.splits)

theorem score_patient_fails_iff_field_missing_witness:
  "list_all (\<lambda>f. (baseline(''Gender_Female'' \<mapsto> 2)) f \<noteq> None) scored_fields \<and>
   (\<exists>s. score_patient (baseline(''Gender_Female'' \<mapsto> 2)) = Inr s)"
proof -
  have h: "list_all (\<lambda>f. (baseline(''Gender_Female'' \<mapsto> 2)) f \<noteq> None) scored_fields"
    by code_simp
  show ?thesis
    using h score_patient_fails_iff_field_missing [of "baseline(''Gender_Female'' \<mapsto> 2)"] by simp
qed

text \<open>
  Claim C4. With all other fields held fixed (\<open>a\<close> and \<open>b\<close> are what the other
  statements add up to), Ondansetron_mg = 4.0 contributes -2 and 3.999999 contributes 0;
  Glycopyrrolate_mg = 0.2 contributes 0 and 0.2000001 contributes +1.
\<close>

theorem threshold_boundaries:
  assumes "rest_score ''Ondansetron_mg'' row = Inr a"
    and "rest_score ''Glycopyrrolate_mg'' row = Inr b"
  shows "score_patient (row(''Ondansetron_mg'' \<mapsto> 4.0)) = Inr (a + (- 2)) \<and>
         score_patient (row(''Ondansetron_mg'' \<mapsto> 3.999999)) = Inr (a + 0) \<and>
         score_patient (row(''Glycopyrrolate_mg'' \<mapsto> 0.2)) = Inr (b + 0) \<and>
         score_patient (row(''Glycopyrrolate_mg'' \<mapsto> 0.2000001)) = Inr (b + 1)"
proof -
  have o: "(''Ondansetron_mg'', \<lambda>v. if v \<ge> 4 then - 2 else 0) \<in> set score_body"
    by (simp add: score_body_def)
  have g: "(''Glycopyrrolate_mg'', \<lambda>v. if v > 0.2 then 1 else 0) \<in> set score_body"
    by (simp add: score_body_def)
  show ?thesis
    using assms by (simp add: score_patient_update [OF o] score_patient_update [OF g])
qed

theorem threshold_boundaries_witness:
  "rest_score ''Ondansetron_mg'' baseline = Inr 0 \<and>
   rest_score ''Glycopyrrolate_mg'' baseline = Inr 0 \<and>
   score_patient (baseline(''Ondansetron_mg'' \<mapsto> 4.0)) = Inr (- 2) \<and>
   score_patient (baseline(''Ondansetron_mg'' \<mapsto> 3.999999)) = Inr 0 \<and>
   score_patient (baseline(''Glycopyrrolate_mg'' \<mapsto> 0.2)) = Inr 0 \<and>
   score_patient (baseline(''Glycopyrrolate_mg'' \<mapsto> 0.2000001)) = Inr 1"
proof -
  have a: "rest_score ''Ondansetron_mg'' baseline = Inr 0"
    by (rule rest_score_zero [OF baseline_zero])
  have b: "rest_score ''Glycopyrrolate_mg'' baseline = Inr 0"
    by (rule rest_score_zero [OF baseline_zero])
  show ?thesis
    using a b threshold_boundaries [OF a b] by simp
qed

text \<open>
  Claim C5. A record in which every rule of the table fires (every binary field of the
  table is 1, every dose meets its rule's condition) scores the sum of all the weights of
  the table, which is 21; a record in which every column is 0 scores 0.
\<close>

theorem all_on_and_all_zero_scores:
  assumes "list_all (\<lambda>r. case row (rule_field r) of None \<Rightarrow> False | Some v \<Rightarrow> rule_fires r v) rule_table"
    and "list_all (\<lambda>f. zero f = Some 0) data_columns"
  shows "score_patient row = Inr (sum_list (map rule_weight rule_table)) \<and>
         sum_list (map rule_weight rule_table) = 21 \<and>
         score_patient zero = Inr 0"
proof -
  have fires: "rule_fires r (the (row (rule_field r)))" and some: "row (rule_field r) \<noteq> None"
    if "r \<in> set rule_table" for r
    using assms(1) that by (auto simp: list_all_iff split: option.splits)
  have present: "\<forall>f \<in> set scored_fields. row f \<noteq> None"
    using some unfolding table_fields [symmetric] by auto
  have len: "length rule_table = length score_body"
    using body_implements_table by (rule list_all2_lengthD)
  have "snd (score_body ! i) (the (row (fst (score_body ! i)))) = rule_weight (rule_table ! i)"
    if i: "i < length rule_table" for i
  proof -
    define r where "r = rule_table ! i"
    have mem: "r \<in> set rule_table" using i by (simp add: r_def)
    have rel: "fst (score_body ! i) = rule_field r \<and>
         (\<forall>v. snd (score_body ! i) v =
            (if propofol_flag r then (if v = 1 then rule_weight r else 0) else rule_value r v))"
      using body_implements_table i unfolding r_def by (rule list_all2_nthD)
    from fires [OF mem] rel rule_fires_value [OF fires [OF mem]]
    have "snd (score_body ! i) (the (row (fst (score_body ! i)))) = rule_weight r"
      by (cases r) auto
    then show ?thesis by (simp add: r_def)
  qed
  with len have "map (\<lambda>st. snd st (the (row (fst st)))) score_body = map rule_weight rule_table"
    by (simp add: list_eq_iff_nth_eq)
  with score_patient_present [OF present]
  have on: "score_patient row = Inr (sum_list (map rule_weight rule_table))"
    by simp
  have total: "sum_list (map rule_weight rule_table) = 21"
    by (simp add: rule_table_def)
  have "\<forall>f \<in> set scored_fields. zero f = Some 0"
    using assms(2) scored_fields_columns by (auto simp: list_all_iff)
  then have "score_patient zero = Inr 0"
    by (rule score_patient_zero)
  with on total show ?thesis by simp
qed

theorem all_on_and_all_zero_scores_witness:
  "list_all (\<lambda>r. case all_on (rule_field r) of None \<Rightarrow> False | Some v \<Rightarrow> rule_fires r v) rule_table \<and>
   list_all (\<lambda>f. baseline f = Some 0) data_columns \<and>
   score_patient all_on = Inr 21 \<and> score_patient baseline = Inr 0"
proof -
  have on: "list_all (\<lambda>r. case all_on (rule_field r) of None \<Rightarrow> False | Some v \<Rightarrow> rule_fires r v) rule_table"
    by code_simp
  have zero: "list_all (\<lambda>f. baseline f = Some 0) data_columns"
    by (simp add: list_all_iff baseline_lookup)
  show ?thesis
    using on zero all_on_and_all_zero_scores [OF on zero] by simp
qed

text \<open>
  Claim C9. On every valid record the score is returned and lies between the sum of the
  negative weights of the table, -9, and the sum of its positive weights, 30.
\<close>

theorem score_bounds:
  assumes "valid_record row"
  shows "(\<exists>s. score_patient row = Inr s \<and> - 9 \<le> s \<and> s \<le> 30) \<and>
         sum_list (map (\<lambda>r. min 0 (rule_weight r)) rule_table) = - 9 \<and>
         sum_list (map (\<lambda>r. max 0 (rule_weight r)) rule_table) = 30"
proof -
  have lo: "sum_list (map (\<lambda>r. min 0 (rule_weight r)) rule_table) = - 9"
    by (simp add: rule_table_def)
  have hi: "sum_list (map (\<lambda>r. max 0 (rule_weight r)) rule_table) = 30"
    by (simp add: rule_table_def)
  have b: "min 0 (rule_weight r) \<le> contribution row r \<and> contribution row r \<le> max 0 (rule_weight r)"
    if "r \<in> set rule_table" for r
    unfolding contribution_def
    using valid_rule_value [OF assms that] by (rule rule_value_bounds)
  have "sum_list (map (\<lambda>r. min 0 (rule_weight r)) rule_table) \<le> table_score row"
    unfolding table_score_def using b by (intro sum_list_mono) simp
  moreover have "table_score row \<le> sum_list (map (\<lambda>r. max 0 (rule_weight r)) rule_table)"
    unfolding table_score_def using b by (intro sum_list_mono) simp
  ultimately show ?thesis
    using score_patient_table_valid [OF assms] lo hi by simp
qed

theorem score_bounds_witness:
  "valid_record all_on \<and> (\<exists>s. score_patient all_on = Inr s \<and> - 9 \<le> s \<and> s \<le> 30)"
proof -
  have h: "valid_record all_on" by (rule valid_all_on)
  show ?thesis using h score_bounds [OF h] by simp
qed

text \<open>
  Claim C6. The baseline record scores 0; setting one field of the baseline to a value
  at which its rule fires gives exactly that rule's weight; and the score of any record
  that has all the scored fields is the sum, over the scored fields, of the score of the
  baseline with only that field set to the record's value.
\<close>

theorem additivity:
  assumes "r \<in> set rule_table" and "rule_fires r v"
    and "list_all (\<lambda>f. row f \<noteq> None) scored_fields"
  shows "score_patient baseline = Inr 0 \<and>
         score_patient (baseline(rule_field r \<mapsto> v)) = Inr (rule_weight r) \<and>
         (\<exists>cs. map (\<lambda>f. score_patient (baseline(f \<mapsto> the (row f)))) scored_fields = map Inr cs \<and>
               score_patient row = Inr (sum_list cs))"
proof -
  have zero: "score_patient baseline = Inr 0"
    by (rule score_patient_zero [OF baseline_zero])
  from table_statement [OF assms(1)]
  obtain e where e: "(rule_field r, e) \<in> set score_body"
    and ev: "\<And>v. e v = (if propofol_flag r then (if v = 1 then rule_weight r else 0) else rule_value r v)"
    by blast
  from assms(2) ev [of v] rule_fires_value [OF assms(2)] have "e v = rule_weight r"
    by (cases r) auto
  with isolated_statement [OF e, of v]
  have one: "score_patient (baseline(rule_field r \<mapsto> v)) = Inr (rule_weight r)"
    by simp
  define cs where "cs = map (\<lambda>st. snd st (the (row (fst st)))) score_body"
  have "score_patient (baseline(fst st \<mapsto> the (row (fst st)))) = Inr (snd st (the (row (fst st))))"
    if "st \<in> set score_body" for st
    using that by (intro isolated_statement) simp
  then have iso: "map (\<lambda>f. score_patient (baseline(f \<mapsto> the (row f)))) scored_fields = map Inr cs"
    by (simp add: scored_fields_def cs_def)
  have "\<forall>f \<in> set scored_fields. row f \<noteq> None"
    using assms(3) by (simp add: list_all_iff)
  then have "score_patient row = Inr (sum_list cs)"
    unfolding cs_def by (rule score_patient_present)
  with zero one iso show ?thesis by blast
qed

theorem additivity_witness:
  "ThresholdRule ''Fentanyl_mcg_per_kg'' GT 5 3 \<in> set rule_table \<and>
   rule_fires (ThresholdRule ''Fentanyl_mcg_per_kg'' GT 5 3) 6 \<and>
   list_all (\<lambda>f. all_on f \<noteq> None) scored_fields \<and>
   score_patient (baseline(''Fentanyl_mcg_per_kg'' \<mapsto> 6)) = Inr 3"
proof -
  have r: "ThresholdRule ''Fentanyl_mcg_per_kg'' GT 5 3 \<in> set rule_table"
    by (simp add: rule_table_def)
  have f: "rule_fires (ThresholdRule ''Fentanyl_mcg_per_kg'' GT 5 3) 6"
    by simp
  have p: "list_all (\<lambda>f. all_on f \<noteq> None) scored_fields"
    using valid_present [OF valid_all_on] by (simp add: list_all_iff)
  show ?thesis
    using r f p additivity [OF r f p] by simp
qed

text \<open>
  Claim C10. For a binary rule of the table on field \<open>f\<close> with weight \<open>w\<close>, with the
  other fields held fixed (\<open>b\<close> is what the other statements add up to): a Propofol flag
  contributes \<open>w\<close> when its value is exactly 1 and 0 for any other value; every other
  binary field contributes \<open>w\<close> times its value, whatever the value.
\<close>

theorem propofol_equality_semantics:
  assumes "BinaryRule f w \<in> set rule_table" and "rest_score f row = Inr b"
  shows "score_patient (row(f \<mapsto> v)) =
           Inr (b + (if f = ''Propofol_TIVA'' \<or> f = ''Propofol_InductionOnly''
                     then (if v = 1 then w else 0) else w * v))"
proof -
  from table_statement [OF assms(1)]
  obtain e where e: "(rule_field (BinaryRule f w), e) \<in> set score_body"
    and ev: "\<And>v. e v = (if propofol_flag (BinaryRule f w) then (if v = 1 then rule_weight (BinaryRule f w) else 0)
                        else rule_value (BinaryRule f w) v)"
    by blast
  from e have "(f, e) \<in> set score_body" by simp
  from score_patient_update [OF this, of row v] assms(2) ev [of v]
  show ?thesis by simp
qed

theorem propofol_equality_semantics_witness:
  "BinaryRule ''Propofol_TIVA'' (- 3) \<in> set rule_table \<and>
   BinaryRule ''Vomiting_gt_2'' 2 \<in> set rule_table \<and>
   rest_score ''Propofol_TIVA'' baseline = Inr 0 \<and>
   rest_score ''Vomiting_gt_2'' baseline = Inr 0 \<and>
   score_patient (baseline(''Propofol_TIVA'' \<mapsto> 2)) = Inr 0 \<and>
   score_patient (baseline(''Propofol_TIVA'' \<mapsto> 1)) = Inr (- 3) \<and>
   score_patient (baseline(''Vomiting_gt_2'' \<mapsto> 2)) = Inr 4"
proof -
  have p: "BinaryRule ''Propofol_TIVA'' (- 3) \<in> set rule_table"
    by (simp add: rule_table_def)
  have q: "BinaryRule ''Vomiting_gt_2'' 2 \<in> set rule_table"
    by (simp add: rule_table_def)
  have a: "rest_score ''Propofol_TIVA'' baseline = Inr 0"
    by (rule rest_score_zero [OF baseline_zero])
  have b: "rest_score ''Vomiting_gt_2'' baseline = Inr 0"
    by (rule rest_score_zero [OF baseline_zero])
  show ?thesis
    using p q a b
      propofol_equality_semantics [OF p a, of 2]
      propofol_equality_semantics [OF p a, of 1]
      propofol_equality_semantics [OF q b, of 2]
    by simp
qed

text \<open>
  Claim C8. Scoring the cohort table keeps the number and the order of its rows: the
  call returns a table with one more column, \<open>Hybrid_PONV_Score\<close>, and its i-th row
  is the i-th input row followed by the score of that input row alone.
\<close>

theorem score_cohort_preserves_rows:
  assumes "columns df = data_columns" and "rectangular df"
  shows "\<exists>out. score_cohort df = Inr out \<and>
           columns out = data_columns @ [''Hybrid_PONV_Score''] \<and>
           length (rows out) = length (rows df) \<and>
           (\<forall>i < length (rows df). \<exists>s.
               score_patient (row_series data_columns (rows df ! i)) = Inr s \<and>
               rows out ! i = rows df ! i @ [s])"
  using assms by (rule score_cohort_preserves_rows_aux)

theorem score_cohort_preserves_rows_witness:
  "columns (generate_synthetic_data [replicate 30 0, replicate 30 1]) = data_columns \<and>
   rectangular (generate_synthetic_data [replicate 30 0, replicate 30 1]) \<and>
   (\<exists>out. score_cohort (generate_synthetic_data [replicate 30 0, replicate 30 1]) = Inr out \<and>
          length (rows out) = 2)"
proof -
  have c: "columns (generate_synthetic_data [replicate 30 0, replicate 30 1]) = data_columns"
    by (simp add: generate_synthetic_data_def)
  have r: "rectangular (generate_synthetic_data [replicate 30 0, replicate 30 1])"
    by (simp add: generate_synthetic_data_def rectangular_def data_columns_def)
  have "rows (generate_synthetic_data [replicate 30 0, replicate 30 1]) = [replicate 30 0, replicate 30 1]"
    by (simp add: generate_synthetic_data_def)
  with c r score_cohort_preserves_rows [OF c r] show ?thesis
    by auto
qed

text \<open>
  Claim C7. Two records that differ only in Succinylcholine, Atracurium, Cisatracurium or
  Vecuronium get the same result from \<open>score_patient\<close>; and in the scored table each
  of these four columns is still present and holds, in every row, the value that the
  input table holds there.
\<close>

theorem muscle_relaxants_do_not_interfere:
  assumes "\<forall>f. f \<notin> set muscle_relaxants \<longrightarrow> r1 f = r2 f"
    and "columns df = data_columns" and "rectangular df"
    and "score_cohort df = Inr out" and "i < length (rows df)" and "m \<in> set muscle_relaxants"
  shows "score_patient r1 = score_patient r2 \<and>
         m \<in> set (columns out) \<and>
         row_series (columns out) (rows out ! i) m = row_series (columns df) (rows df ! i) m \<and>
         row_series (columns df) (rows df ! i) m \<noteq> None"
proof -
  have "list_all (\<lambda>f. f \<notin> set muscle_relaxants) scored_fields"
    by (simp add: scored_fields_def score_body_def muscle_relaxants_def)
  with assms(1) have "\<forall>st \<in> set score_body. r1 (fst st) = r2 (fst st)"
    by (auto simp: list_all_iff scored_fields_def)
  then have same: "score_patient r1 = score_patient r2"
    unfolding score_patient_def by (rule exec_cong_fields)
  have m: "m \<in> set data_columns"
    using assms(6) by (auto simp: muscle_relaxants_def data_columns_def)
  from score_cohort_preserves_rows_aux [OF assms(2,3)] assms(4,5)
  obtain s where cols: "columns out = data_columns @ [''Hybrid_PONV_Score'']"
    and row: "rows out ! i = rows df ! i @ [s]"
    by auto
  have len: "length (rows df ! i) = length data_columns"
    using assms(2,3,5) by (simp add: rectangular_def list_all_length)
  from cols row row_series_append [OF len m] row_series_present [OF len m] m assms(2)
  have "m \<in> set (columns out) \<and>
        row_series (columns out) (rows out ! i) m = row_series (columns df) (rows df ! i) m \<and>
        row_series (columns df) (rows df ! i) m \<noteq> None"
    by simp
  with same show ?thesis by simp
qed


theorem muscle_relaxants_do_not_interfere_witness:
  "columns zero_cohort = data_columns \<and> rectangular zero_cohort \<and>
   score_cohort zero_cohort = Inr zero_cohort_scored \<and>
   0 < length (rows zero_cohort) \<and> ''Atracurium'' \<in> set muscle_relaxants \<and>
   score_patient baseline = score_patient (baseline(''Atracurium'' \<mapsto> 1)) \<and>
   ''Atracurium'' \<in> set (columns zero_cohort_scored) \<and>
   row_series (columns zero_cohort_scored) (rows zero_cohort_scored ! 0) ''Atracurium'' =
     row_series (columns zero_cohort) (rows zero_cohort ! 0) ''Atracurium''"
proof -
  have a: "\<forall>f. f \<notin> set muscle_relaxants \<longrightarrow> baseline f = (baseline(''Atracurium'' \<mapsto> 1)) f"
    by (simp add: muscle_relaxants_def)
  have i: "0 < length (rows zero_cohort)"
    by (simp add: zero_cohort_def generate_synthetic_data_def)
  have m: "''Atracurium'' \<in> set muscle_relaxants"
    by (simp add: muscle_relaxants_def)
  show ?thesis
    using i m zero_cohort_table score_zero_cohort
      muscle_relaxants_do_not_interfere [OF a zero_cohort_table score_zero_cohort i m]
    by blast
qed

text \<open>
  Claim C3, as stated, fails: the columns of the serialized table are not in the order in
  which section 3 of the specification declares the fields. The source's table has the
  two Propofol flags before \<open>Volatile_Agents_MAC\<close>, section 3 has them after it.
\<close>

theorem csv_header_not_in_declaration_order:
  "score_cohort zero_cohort = Inr zero_cohort_scored \<and>
   csv_header zero_cohort_scored \<noteq> declaration_order @ [''Hybrid_PONV_Score''] \<and>
   csv_header zero_cohort_scored ! 20 = ''Propofol_TIVA'' \<and>
   (declaration_order @ [''Hybrid_PONV_Score'']) ! 20 = ''Volatile_Agents_MAC''"
proof -
  have "csv_header zero_cohort_scored ! 20 = ''Propofol_TIVA''"
    by (simp add: csv_header_def zero_cohort_scored_def data_columns_def)
  moreover have "(declaration_order @ [''Hybrid_PONV_Score'']) ! 20 = ''Volatile_Agents_MAC''"
    by (simp add: declaration_order_def dose_fields_def muscle_relaxants_def)
  ultimately show ?thesis
    using score_zero_cohort by auto
qed

text \<open>
  Claim C3, amended. For the CSV format, \<open>convert_df\<close> renders the scored table as a
  header row, which lists the columns in the order in which the source builds the table
  followed by \<open>Hybrid_PONV_Score\<close>, and then one row per record in cohort order, each
  holding the record's cells in column order followed by its score, with no index column.
\<close>

theorem convert_df_layout:
  assumes "columns df = data_columns" and "rectangular df"
  shows "\<exists>out. score_cohort df = Inr out \<and>
           convert_df fmt out = concat (map (\<lambda>cells. join '','' cells @ [CHR 0x0A]) (csv_records fmt out)) \<and>
           length (csv_records fmt out) = Suc (length (rows df)) \<and>
           csv_records fmt out ! 0 = data_columns @ [''Hybrid_PONV_Score''] \<and>
           (\<forall>i < length (rows df). \<exists>s.
               score_patient (row_series data_columns (rows df ! i)) = Inr s \<and>
               csv_records fmt out ! Suc i =
                 map2 fmt data_columns (rows df ! i) @ [fmt ''Hybrid_PONV_Score'' s])"
proof -
  from score_cohort_preserves_rows_aux [OF assms] obtain out
    where out: "score_cohort df = Inr out"
      and cols: "columns out = data_columns @ [''Hybrid_PONV_Score'']"
      and len: "length (rows out) = length (rows df)"
      and rows: "\<forall>i < length (rows df). \<exists>s.
               score_patient (row_series data_columns (rows df ! i)) = Inr s \<and>
               rows out ! i = rows df ! i @ [s]"
    by blast
  have "\<exists>s. score_patient (row_series data_columns (rows df ! i)) = Inr s \<and>
          csv_records fmt out ! Suc i =
            map2 fmt data_columns (rows df ! i) @ [fmt ''Hybrid_PONV_Score'' s]"
    if i: "i < length (rows df)" for i
  proof -
    from rows i obtain s
      where s: "score_patient (row_series data_columns (rows df ! i)) = Inr s"
        and r: "rows out ! i = rows df ! i @ [s]"
      by blast
    have "length (rows df ! i) = length data_columns"
      using assms i by (simp add: rectangular_def list_all_length)
    then have "map2 fmt (data_columns @ [''Hybrid_PONV_Score'']) (rows df ! i @ [s]) =
               map2 fmt data_columns (rows df ! i) @ [fmt ''Hybrid_PONV_Score'' s]"
      by simp
    with r i len cols have "csv_records fmt out ! Suc i =
        map2 fmt data_columns (rows df ! i) @ [fmt ''Hybrid_PONV_Score'' s]"
      by (simp add: csv_records_def)
    with s show ?thesis by blast
  qed
  with out cols len show ?thesis
    by (auto simp: convert_df_def csv_records_def csv_header_def)
qed

theorem convert_df_layout_witness:
  "columns zero_cohort = data_columns \<and> rectangular zero_cohort \<and>
   (\<exists>out. score_cohort zero_cohort = Inr out \<and>
      csv_records (\<lambda>c v. []) out ! 0 = data_columns @ [''Hybrid_PONV_Score''] \<and>
      length (csv_records (\<lambda>c v. []) out) = 2)"
proof -
  have "length (rows zero_cohort) = 1"
    by (simp add: zero_cohort_def generate_synthetic_data_def)
  with zero_cohort_table convert_df_layout [OF zero_cohort_table, of "\<lambda>c v. []"]
  show ?thesis by auto
qed

end
